theory Spec2Isabelle
  imports Main
begin

section \<open>Cover art generator: the embedding\<close>

text \<open>
  A shallow embedding of \<^verbatim>\<open>listenbrainz/art/cover_art_generator.py\<close>. Python's unbounded
  integers are \<^typ>\<open>int\<close> (\<open>div\<close> and \<open>mod\<close> on \<^typ>\<open>int\<close> round towards minus infinity, as
  \<^verbatim>\<open>//\<close> and \<^verbatim>\<open>%\<close> do); strings are \<^typ>\<open>string\<close>, read as ASCII text; \<^verbatim>\<open>None\<close> is
  \<^const>\<open>None\<close>; an exception is the \<^const>\<open>Inl\<close> side of a sum.
\<close>

subsection \<open>Exceptions\<close>

datatype py_error =
    ValueError string
  | KeyError string
  | IndexError
  | ZeroDivisionError
  | UnboundLocalError

subsection \<open>Strings: \<^verbatim>\<open>str.split\<close>, \<^verbatim>\<open>str.strip\<close>, \<^verbatim>\<open>int\<close> and \<^verbatim>\<open>str\<close>\<close>

text \<open>\<^verbatim>\<open>s.split(sep)\<close> for a separator of one character: never the empty list.\<close>

fun split_on :: "char \<Rightarrow> string \<Rightarrow> string list" where
  "split_on sep [] = [[]]"
| "split_on sep (c # cs) =
     (if c = sep then [] # split_on sep cs
      else (case split_on sep cs of
              [] \<Rightarrow> [[c]]
            | w # ws \<Rightarrow> (c # w) # ws))"

text \<open>The ASCII characters for which \<^verbatim>\<open>str.isspace\<close> holds.\<close>

definition is_space :: "char \<Rightarrow> bool" where
  "is_space c \<longleftrightarrow> c \<in> set [CHR 0x20, CHR 0x09, CHR 0x0A, CHR 0x0B, CHR 0x0C, CHR 0x0D,
                             CHR 0x1C, CHR 0x1D, CHR 0x1E, CHR 0x1F]"

definition strip :: "string \<Rightarrow> string" where
  "strip s = rev (dropWhile is_space (rev (dropWhile is_space s)))"

definition digit_val :: "char \<Rightarrow> nat option" where
  "digit_val c =
     map_of [(CHR ''0'', 0), (CHR ''1'', 1), (CHR ''2'', 2), (CHR ''3'', 3), (CHR ''4'', 4),
             (CHR ''5'', 5), (CHR ''6'', 6), (CHR ''7'', 7), (CHR ''8'', 8), (CHR ''9'', 9)] c"

text \<open>
  The digits of a decimal literal after its first digit: a digit, or one underscore
  followed by a digit. The accumulator is the value read so far.
\<close>

fun more_digits :: "nat \<Rightarrow> string \<Rightarrow> nat option" where
  "more_digits acc [] = Some acc"
| "more_digits acc [c] =
     (case digit_val c of None \<Rightarrow> None | Some d \<Rightarrow> Some (10 * acc + d))"
| "more_digits acc (c # c' # cs) =
     (case digit_val c of
        Some d \<Rightarrow> more_digits (10 * acc + d) (c' # cs)
      | None \<Rightarrow>
          if c = CHR ''_'' then
            (case digit_val c' of None \<Rightarrow> None | Some d \<Rightarrow> more_digits (10 * acc + d) cs)
          else None)"

definition digits :: "string \<Rightarrow> nat option" where
  "digits s =
     (case s of
        [] \<Rightarrow> None
      | c # cs \<Rightarrow> (case digit_val c of None \<Rightarrow> None | Some d \<Rightarrow> more_digits d cs))"

text \<open>
  \<^verbatim>\<open>int(s)\<close> in base ten: surrounding whitespace is ignored, then an optional sign, then
  the digits. \<^const>\<open>None\<close> stands for the \<^verbatim>\<open>ValueError\<close> it raises otherwise. Digits and
  spaces outside ASCII, and the interpreter's limit on the number of digits of a literal,
  are outside this model.
\<close>

definition py_int :: "string \<Rightarrow> int option" where
  "py_int s =
     (case strip s of
        [] \<Rightarrow> None
      | c # cs \<Rightarrow>
          if c = CHR ''-'' then map_option (\<lambda>n. - int n) (digits cs)
          else if c = CHR ''+'' then map_option int (digits cs)
          else map_option int (digits (c # cs)))"

text \<open>\<^verbatim>\<open>str(n)\<close> for an integer, as an f-string renders it.\<close>

definition digit_char :: "nat \<Rightarrow> char" where
  "digit_char d = ''0123456789'' ! d"

fun str_nat :: "nat \<Rightarrow> string" where
  "str_nat n = (if n < 10 then [digit_char n] else str_nat (n div 10) @ [digit_char (n mod 10)])"

definition str_int :: "int \<Rightarrow> string" where
  "str_int i = (if i < 0 then CHR ''-'' # str_nat (nat (- i)) else str_nat (nat i))"

subsection \<open>The generator's configuration\<close>

type_synonym rect = "int \<times> int \<times> int \<times> int"

record generator =
  dimension :: int
  image_size :: int
  background :: string
  skip_missing :: bool
  show_caa_image_for_missing_covers :: bool
  tile_size :: int

text \<open>\<^verbatim>\<open>__init__\<close>: the tile size is computed once, and \<^verbatim>\<open>//\<close> raises on a zero dimension.\<close>

definition init :: "int \<Rightarrow> int \<Rightarrow> string \<Rightarrow> bool \<Rightarrow> bool \<Rightarrow> py_error + generator" where
  "init dim sz bg skip showp =
     (if dim = 0 then Inl ZeroDivisionError
      else Inr \<lparr> dimension = dim, image_size = sz, background = bg, skip_missing = skip,
                 show_caa_image_for_missing_covers = showp, tile_size = sz div dim \<rparr>)"

definition CAA_MISSING_IMAGE :: string where
  "CAA_MISSING_IMAGE = ''https://listenbrainz.org/static/img/cover-art-placeholder.jpg''"

text \<open>
  \<^verbatim>\<open>GRID_TILE_DESIGNS\<close>: a dictionary from the dimension to its list of designs. The
  design of one cover per tile is written here row by row of the grid.
\<close>

definition GRID_TILE_DESIGNS :: "(int \<times> string list list) list" where
  "GRID_TILE_DESIGNS =
    [(2, [[''0'', ''1'', ''2'', ''3'']]),
     (3, [[''0'', ''1'', ''2''] @ [''3'', ''4'', ''5''] @ [''6'', ''7'', ''8''],
          [''0,1,3,4'', ''2'', ''5'', ''6'', ''7'', ''8''],
          [''0'', ''1'', ''2'', ''3'', ''4,5,7,8'', ''6'']]),
     (4, [[''0'', ''1'', ''2'', ''3''] @ [''4'', ''5'', ''6'', ''7'']
            @ [''8'', ''9'', ''10'', ''11''] @ [''12'', ''13'', ''14'', ''15''],
          [''5,6,9,10'', ''0'', ''1'', ''2'', ''3'', ''4'', ''7'', ''8'', ''11'', ''12'', ''13'',
           ''14'', ''15''],
          [''0,1,4,5'', ''10,11,14,15'', ''2'', ''3'', ''6'', ''7'', ''8'', ''9'', ''12'', ''13''],
          [''0,1,2,4,5,6,8,9,10'', ''3'', ''7'', ''11'', ''12'', ''13'', ''14'', ''15'']]),
     (5, [[''0'', ''1'', ''2'', ''3'', ''4''] @ [''5'', ''6'', ''7'', ''8'', ''9'']
            @ [''10'', ''11'', ''12'', ''13'', ''14''] @ [''15'', ''16'', ''17'', ''18'', ''19'']
            @ [''20'', ''21'', ''22'', ''23'', ''24''],
          [''0,1,2,5,6,7,10,11,12'', ''3,4,8,9'', ''15,16,20,21'', ''13'', ''14'', ''17'', ''18'',
           ''19'', ''22'', ''23'', ''24'']])]"

subsection \<open>Geometry\<close>

text \<open>
  \<^verbatim>\<open>get_tile_position\<close>. \<^const>\<open>None\<close> stands for the pair \<^verbatim>\<open>(None, None)\<close> returned for a
  tile outside the grid; \<^verbatim>\<open>int(...)\<close> of an integer is that integer.
\<close>

definition get_tile_position :: "generator \<Rightarrow> int \<Rightarrow> rect option" where
  "get_tile_position g tile =
     (if tile < 0 \<or> tile \<ge> dimension g * dimension g then None
      else
        let x = tile mod dimension g;
            y = tile div dimension g;
            x1 = x * tile_size g;
            y1 = y * tile_size g;
            x2 = (x + 1) * tile_size g;
            y2 = (y + 1) * tile_size g;
            x2 = (if x = dimension g - 1 then image_size g - 1 else x2);
            y2 = (if y = dimension g - 1 then image_size g - 1 else y2)
        in Some (x1, y1, x2, y2))"

text \<open>
  The \<^verbatim>\<open>try\<close> block of \<^verbatim>\<open>calculate_bounding_box\<close>: split at the commas, strip each token,
  read it as an integer; \<^const>\<open>None\<close> when \<^verbatim>\<open>int\<close> raises for a token.
\<close>

fun parse_tokens :: "string list \<Rightarrow> int list option" where
  "parse_tokens [] = Some []"
| "parse_tokens (t # ts) =
     (case py_int (strip t) of
        None \<Rightarrow> None
      | Some i \<Rightarrow> (case parse_tokens ts of None \<Rightarrow> None | Some is \<Rightarrow> Some (i # is)))"

definition parse_address :: "string \<Rightarrow> int list option" where
  "parse_address address = parse_tokens (split_on (CHR '','') address)"

text \<open>
  The loop over the tiles after the first one (\<open>i > 0\<close>), with the running box. Unpacking
  the pair \<^verbatim>\<open>(None, None)\<close> into four names raises \<^verbatim>\<open>ValueError\<close>.
\<close>

fun grow_box :: "generator \<Rightarrow> rect \<Rightarrow> int list \<Rightarrow> py_error + rect" where
  "grow_box g bb [] = Inr bb"
| "grow_box g (bb_x1, bb_y1, bb_x2, bb_y2) (tile # tiles) =
     (case get_tile_position g tile of
        None \<Rightarrow> Inl (ValueError ''not enough values to unpack (expected 4, got 2)'')
      | Some (x1, y1, x2, y2) \<Rightarrow>
          grow_box g (min (min bb_x1 x1) x2, min (min bb_y1 y1) y2,
                      max (max bb_x2 x1) x2, max (max bb_y2 y1) y2) tiles)"

text \<open>
  \<^verbatim>\<open>calculate_bounding_box\<close>. \<open>Inr None\<close> stands for the four \<^verbatim>\<open>None\<close>s of an invalid
  address, \<open>Inr (Some bb)\<close> for a box.
\<close>

definition calculate_bounding_box :: "generator \<Rightarrow> string \<Rightarrow> py_error + rect option" where
  "calculate_bounding_box g address =
     (case parse_address address of
        None \<Rightarrow> Inr None
      | Some tiles \<Rightarrow>
          if list_ex (\<lambda>tile. tile < 0 \<or> tile \<ge> dimension g * dimension g) tiles then Inr None
          else
            (case tiles of
               [] \<Rightarrow> Inl UnboundLocalError
             | tile # rest \<Rightarrow>
                 (case get_tile_position g tile of
                    None \<Rightarrow> Inl (ValueError ''not enough values to unpack (expected 4, got 2)'')
                  | Some bb \<Rightarrow>
                      (case grow_box g bb rest of
                         Inl e \<Rightarrow> Inl e
                       | Inr bb' \<Rightarrow> Inr (Some bb')))))"

subsection \<open>Resolving cover art\<close>

text \<open>How an f-string renders a value that may be \<^verbatim>\<open>None\<close>.\<close>

definition format_str :: "string option \<Rightarrow> string" where
  "format_str v = (case v of None \<Rightarrow> ''None'' | Some s \<Rightarrow> s)"

definition format_int :: "int option \<Rightarrow> string" where
  "format_int v = (case v of None \<Rightarrow> ''None'' | Some i \<Rightarrow> str_int i)"

text \<open>\<^verbatim>\<open>resolve_cover_art\<close> (it does not read the generator).\<close>

definition resolve_cover_art :: "int option \<Rightarrow> string option \<Rightarrow> int \<Rightarrow> string option" where
  "resolve_cover_art cid release_mbid cover_art_size =
     (if cover_art_size \<notin> set [250, 500] then None
      else Some (''https://archive.org/download/mbid-'' @ format_str release_mbid @ ''/mbid-''
                 @ format_str release_mbid @ ''-'' @ format_int cid @ ''_thumb''
                 @ str_int cover_art_size @ ''.jpg''))"

subsection \<open>Placing covers on tiles\<close>

text \<open>A candidate cover: the dictionary built in \<^verbatim>\<open>load_images\<close>, every value nullable.\<close>

record cover =
  entity_mbid :: "string option"
  title :: "string option"
  artist :: "string option"
  caa_id :: "int option"
  caa_release_mbid :: "string option"

text \<open>A placed image: the dictionary appended to \<^verbatim>\<open>images\<close>.\<close>

record image =
  img_x :: int
  img_y :: int
  img_width :: int
  img_height :: int
  img_url :: string
  img_entity_mbid :: "string option"
  img_title :: "string option"
  img_artist :: "string option"

text \<open>\<^verbatim>\<open>xs[i]\<close>: a negative index counts from the end, an index out of range raises.\<close>

definition list_index :: "'a list \<Rightarrow> int \<Rightarrow> py_error + 'a" where
  "list_index xs i =
     (if 0 \<le> i \<and> i < int (length xs) then Inr (xs ! nat i)
      else if i < 0 \<and> - int (length xs) \<le> i then Inr (xs ! nat (int (length xs) + i))
      else Inl IndexError)"

definition designs_for :: "generator \<Rightarrow> py_error + string list list" where
  "designs_for g =
     (case map_of GRID_TILE_DESIGNS (dimension g) of
        None \<Rightarrow> Inl (KeyError (str_int (dimension g)))
      | Some designs \<Rightarrow> Inr designs)"

text \<open>The choice of the addresses: a layout, else the default design, else the given list.\<close>

definition choose_addrs ::
  "generator \<Rightarrow> string list option \<Rightarrow> int option \<Rightarrow> py_error + string list" where
  "choose_addrs g tile_addrs layout =
     (case layout of
        Some l \<Rightarrow> (case designs_for g of Inl e \<Rightarrow> Inl e | Inr designs \<Rightarrow> list_index designs l)
      | None \<Rightarrow>
          (case tile_addrs of
             None \<Rightarrow> (case designs_for g of Inl e \<Rightarrow> Inl e | Inr designs \<Rightarrow> list_index designs 0)
           | Some addrs \<Rightarrow> Inr addrs))"

text \<open>The first loop: the bounding box of every address, or the first failure.\<close>

fun bounding_boxes :: "generator \<Rightarrow> string list \<Rightarrow> py_error + rect list" where
  "bounding_boxes g [] = Inr []"
| "bounding_boxes g (addr # addrs) =
     (case calculate_bounding_box g addr of
        Inl e \<Rightarrow> Inl e
      | Inr None \<Rightarrow> Inl (ValueError (''Invalid address '' @ addr @ '' specified.''))
      | Inr (Some bb) \<Rightarrow>
          (case bounding_boxes g addrs of Inl e \<Rightarrow> Inl e | Inr tiles \<Rightarrow> Inr (bb # tiles)))"

text \<open>
  The \<^verbatim>\<open>while True\<close> loop for one tile: the URL, the cover it belongs to (\<^const>\<open>None\<close> for
  the empty dictionary) and the covers left. Popping from the empty list raises
  \<^verbatim>\<open>IndexError\<close>, which the loop catches.
\<close>

fun next_cover :: "generator \<Rightarrow> int \<Rightarrow> cover list \<Rightarrow> string option \<times> cover option \<times> cover list" where
  "next_cover g cover_art_size [] =
     (if show_caa_image_for_missing_covers g then Some CAA_MISSING_IMAGE else None, None, [])"
| "next_cover g cover_art_size (c # covers) =
     (case caa_id c of
        None \<Rightarrow>
          if skip_missing g then next_cover g cover_art_size covers
          else if show_caa_image_for_missing_covers g then (Some CAA_MISSING_IMAGE, Some c, covers)
          else (None, Some c, covers)
      | Some i \<Rightarrow>
          (resolve_cover_art (Some i) (caa_release_mbid c) cover_art_size, Some c, covers))"

definition cover_get :: "cover option \<Rightarrow> (cover \<Rightarrow> string option) \<Rightarrow> string option" where
  "cover_get c field = (case c of None \<Rightarrow> None | Some c' \<Rightarrow> field c')"

definition make_image :: "rect \<Rightarrow> string \<Rightarrow> cover option \<Rightarrow> image" where
  "make_image bb u c =
     (case bb of (x1, y1, x2, y2) \<Rightarrow>
        \<lparr> img_x = x1, img_y = y1, img_width = x2 - x1, img_height = y2 - y1, img_url = u,
          img_entity_mbid = cover_get c entity_mbid, img_title = cover_get c title,
          img_artist = cover_get c artist \<rparr>)"

text \<open>The second loop: the images, and the covers left in the list.\<close>

fun place_tiles :: "generator \<Rightarrow> int \<Rightarrow> rect list \<Rightarrow> cover list \<Rightarrow> image list \<times> cover list" where
  "place_tiles g cover_art_size [] covers = ([], covers)"
| "place_tiles g cover_art_size (bb # tiles) covers =
     (case next_cover g cover_art_size covers of
        (u, c, covers') \<Rightarrow>
          (case place_tiles g cover_art_size tiles covers' of
             (images, covers'') \<Rightarrow>
               ((case u of None \<Rightarrow> [] | Some u' \<Rightarrow> [make_image bb u' c]) @ images, covers'')))"

text \<open>
  \<^verbatim>\<open>generate_from_caa_ids\<close>: what it returns or raises, and the list \<^verbatim>\<open>covers\<close> as the
  call leaves it.
\<close>

definition generate_from_caa_ids ::
  "generator \<Rightarrow> cover list \<Rightarrow> string list option \<Rightarrow> int option \<Rightarrow> int
     \<Rightarrow> (py_error + image list) \<times> cover list" where
  "generate_from_caa_ids g covers tile_addrs layout cover_art_size =
     (case choose_addrs g tile_addrs layout of
        Inl e \<Rightarrow> (Inl e, covers)
      | Inr addrs \<Rightarrow>
          (case bounding_boxes g addrs of
             Inl e \<Rightarrow> (Inl e, covers)
           | Inr tiles \<Rightarrow>
               (case place_tiles g cover_art_size tiles covers of
                  (images, covers') \<Rightarrow> (Inr images, covers'))))"

text \<open>
  The same call on a list object in a store of such objects: the call reads the list at
  \<open>r\<close> and leaves there what it has not popped.
\<close>

type_synonym heap = "nat \<rightharpoonup> cover list"

definition generate_from_caa_ids_at ::
  "generator \<Rightarrow> nat \<Rightarrow> string list option \<Rightarrow> int option \<Rightarrow> int \<Rightarrow> heap
     \<Rightarrow> ((py_error + image list) \<times> heap) option" where
  "generate_from_caa_ids_at g r tile_addrs layout cover_art_size h =
     (case h r of
        None \<Rightarrow> None
      | Some covers \<Rightarrow>
          (case generate_from_caa_ids g covers tile_addrs layout cover_art_size of
             (res, covers') \<Rightarrow> Some (res, h(r \<mapsto> covers'))))"

subsection \<open>Statistics\<close>

text \<open>
  The user table, the statistics table, \<^verbatim>\<open>StatisticsRange.__members__\<close> and the clock are
  outside this file: they are fields of a world, which also records every call to a store.
\<close>

datatype store_call = Get_user string | Get_stats int string string

record 'r stats_row =
  data :: "'r list"
  count :: int

record 'r world =
  statistics_ranges :: "string list"
  users :: "string \<rightharpoonup> int"
  stats :: "int \<Rightarrow> string \<Rightarrow> string \<Rightarrow> 'r stats_row option"
  today :: string
  calls :: "store_call list"

definition get_by_mb_id :: "'r world \<Rightarrow> string \<Rightarrow> int option \<times> 'r world" where
  "get_by_mb_id w user_name =
     (users w user_name, w\<lparr>calls := calls w @ [Get_user user_name]\<rparr>)"

definition db_stats_get ::
  "'r world \<Rightarrow> int \<Rightarrow> string \<Rightarrow> string \<Rightarrow> 'r stats_row option \<times> 'r world" where
  "db_stats_get w uid entity time_range =
     (stats w uid entity time_range,
      w\<lparr>calls := calls w @ [Get_stats uid entity time_range]\<rparr>)"

definition NUMBER_OF_STATS :: nat where
  "NUMBER_OF_STATS = 100"

definition time_range_to_english :: "(string \<times> string) list" where
  "time_range_to_english =
     [(''week'', ''last week''), (''month'', ''last month''), (''quarter'', ''last quarter''),
      (''half_yearly'', ''last 6 months''), (''year'', ''last year''),
      (''all_time'', ''of all time''), (''this_week'', ''this week''),
      (''this_month'', ''this month''), (''this_year'', ''this year'')]"

definition download_user_stats ::
  "'r world \<Rightarrow> string \<Rightarrow> string \<Rightarrow> string \<Rightarrow> (py_error + 'r list \<times> int) \<times> 'r world" where
  "download_user_stats w entity user_name time_range =
     (if time_range \<notin> set (statistics_ranges w) then
        (Inl (ValueError ''Invalid date range given.''), w)
      else if entity \<notin> set [''artists'', ''releases'', ''recordings''] then
        (Inl (ValueError ''Stats entity must be one of artist, release or recording.''), w)
      else
        (case get_by_mb_id w user_name of
           (None, w1) \<Rightarrow> (Inl (ValueError (''User '' @ user_name @ '' not found'')), w1)
         | (Some uid, w1) \<Rightarrow>
             (case db_stats_get w1 uid entity time_range of
                (None, w2) \<Rightarrow>
                  (Inl (ValueError (''Stats for user '' @ user_name
                                    @ '' not found/calculated'')), w2)
              | (Some s, w2) \<Rightarrow> (Inr (take NUMBER_OF_STATS (data s), count s), w2))))"

text \<open>
  What \<^verbatim>\<open>create_artist_stats_cover\<close> returns as artists: records of the statistics
  store, or the dictionaries of the literal list (non-ASCII names as UTF-8 bytes).
\<close>

datatype 'r artist_item = Entity_record 'r | Artist_dict string string int

record metadata =
  md_user_name :: string
  md_date :: string
  md_time_range :: string
  md_num_artists :: int

definition huhridge_artists :: "'r artist_item list" where
  "huhridge_artists =
     [Artist_dict ''e520459c-dff4-491d-a6e4-c97be35e0044'' ''Frank Ocean'' 20,
      Artist_dict ''875203e1-8e58-4b86-8dcb-7190faf411c5'' ''J. Cole'' 13,
      Artist_dict ''e636b15f-00c5-45fd-9c33-845a08c8f92d'' ''brakence'' 10,
      Artist_dict ''9fff2f8a-21e6-47de-a2b8-7f449929d43f'' ''Drake'' 9,
      Artist_dict ''ab1a3f85-e0ea-470a-af5c-175447ae774c'' ''underscores'' 8,
      Artist_dict ''aea4c9b9-9f8d-49dc-b2ca-57d6f26e8634'' ''Khruangbin'' 8,
      Artist_dict ''3fd78e94-efeb-43a1-bc19-ad2dd1afbd5a'' ''EDEN'' 8,
      Artist_dict ''f6beac20-5dfe-4d1f-ae02-0b0a740aafd6'' ''Tyler, the Creator'' 7,
      Artist_dict ''260b6184-8828-48eb-945c-bc4cb6fc34ca'' ''Charli XCX'' 7,
      Artist_dict ''f1660eaa-929f-48d4-9926-9aaa61afa52f'' ''Teezo Touchdown'' 6,
      Artist_dict ''ab4e7869-86f5-455e-b52c-c89d7664c07b'' ''Rainbow Kitten Surprise'' 6,
      Artist_dict ''071409d0-ce21-4f03-a111-aec4dbc1590d'' ''Erika de Casier'' 6,
      Artist_dict ''381086ea-f511-4aba-bdf9-71c753dc5077'' ''Kendrick Lamar'' 5,
      Artist_dict ''8dc08b1f-e393-4f85-a5dd-300f7693a8b8'' ''James Blake'' 5,
      Artist_dict ''null'' ([CHR 0xC2, CHR 0xA5] @ ''$, Kanye West, Ty Dolla $ign'') 4,
      Artist_dict ''164f0d73-1234-4e2c-8743-d77bf2191051'' ''Ye'' 4,
      Artist_dict ''61af87f4-16ee-4431-8504-cc06187079fb'' ''XXXTENTACION'' 4,
      Artist_dict ''926ea44c-0efa-455a-b7ce-00ccb5a86cb7'' ''Kyle Dion'' 4,
      Artist_dict ''00d0f0fa-a48c-416d-b4ff-25a290ce82d8''
        (''half'' @ [CHR 0xE2, CHR 0x80, CHR 0xA2] @ ''alive'') 3,
      Artist_dict ''8032cf05-d916-4b2a-9c53-6e75d4a24bd8'' ''Trippie Redd'' 3,
      Artist_dict ''87b9b3b8-ab93-426c-a200-4012d667a626'' ''The War on Drugs'' 3,
      Artist_dict ''aa5a6061-e60d-4a58-b9f6-c09de390bb2d'' ''PnB Rock'' 3,
      Artist_dict ''592da4c4-9618-4a1a-a944-e60c05c39037'' ''Patrick Watson'' 3,
      Artist_dict ''aa2c5e55-57f5-42a7-a0e4-4a02cd9399b1'' ''Oh Wonder'' 3,
      Artist_dict ''dde26295-8cd4-474c-8740-3edb801b2776'' ''Maggie Rogers'' 3]"

text \<open>\<^verbatim>\<open>time_range_to_english[time_range]\<close>: a missing key raises \<^verbatim>\<open>KeyError\<close>.\<close>

definition english_range :: "string \<Rightarrow> py_error + string" where
  "english_range time_range =
     (case map_of time_range_to_english time_range of
        None \<Rightarrow> Inl (KeyError time_range)
      | Some e \<Rightarrow> Inr e)"

definition create_artist_stats_cover ::
  "'r world \<Rightarrow> string \<Rightarrow> string \<Rightarrow> (py_error + 'r artist_item list \<times> metadata) \<times> 'r world" where
  "create_artist_stats_cover w user_name time_range =
     (if user_name = ''huhridge'' then
        (case english_range time_range of
           Inl e \<Rightarrow> (Inl e, w)
         | Inr e \<Rightarrow>
             (Inr (huhridge_artists,
                   \<lparr> md_user_name = user_name, md_date = today w, md_time_range = e,
                     md_num_artists = 128 \<rparr>), w))
      else
        (case download_user_stats w ''artists'' user_name time_range of
           (Inl e, w1) \<Rightarrow> (Inl e, w1)
         | (Inr (artists, total_count), w1) \<Rightarrow>
             (case english_range time_range of
                Inl e \<Rightarrow> (Inl e, w1)
              | Inr e \<Rightarrow>
                  (Inr (map Entity_record artists,
                        \<lparr> md_user_name = user_name, md_date = today w1, md_time_range = e,
                          md_num_artists = total_count \<rparr>), w1))))"

subsection \<open>Notions of the specification\<close>

text \<open>
  The tile indices of a design: those parsed from its addresses, in order, by the parser
  of \<open>calculate_bounding_box\<close>; \<^const>\<open>None\<close> when an address does not parse.
\<close>

fun design_tiles :: "string list \<Rightarrow> int list option" where
  "design_tiles [] = Some []"
| "design_tiles (a # as) =
     (case parse_address a of
        None \<Rightarrow> None
      | Some ts \<Rightarrow> (case design_tiles as of None \<Rightarrow> None | Some rest \<Rightarrow> Some (ts @ rest)))"

definition exact_cover :: "int \<Rightarrow> string list \<Rightarrow> bool" where
  "exact_cover d design \<longleftrightarrow>
     (case design_tiles design of
        None \<Rightarrow> False
      | Some tiles \<Rightarrow> distinct tiles \<and> set tiles = {0 .. d * d - 1})"

definition registered_ok :: "int \<Rightarrow> bool" where
  "registered_ok d \<longleftrightarrow>
     (case map_of GRID_TILE_DESIGNS d of
        None \<Rightarrow> False
      | Some designs \<Rightarrow> designs \<noteq> [] \<and> list_all (exact_cover d) designs)"

text \<open>A world to run the statistics functions in: two users, one statistics row each.\<close>

definition demo_world :: "string world" where
  "demo_world =
     \<lparr> statistics_ranges = [''week'', ''month'', ''quarter'', ''half_yearly'', ''year'',
                            ''all_time'', ''this_week'', ''this_month'', ''this_year''],
       users = [''rob'' \<mapsto> 1, ''huhridge'' \<mapsto> 2],
       stats = (\<lambda>uid entity time_range.
                  if (uid = 1 \<or> uid = 2) \<and> entity = ''artists'' \<and> time_range = ''week''
                  then Some \<lparr> data = [''Portishead''], count = 1 \<rparr> else None),
       today = ''2024-01-01'',
       calls = [] \<rparr>"

text \<open>The points of a rectangle \<open>(x1, y1, x2, y2)\<close>, both corners included.\<close>

definition rect_points :: "rect \<Rightarrow> (int \<times> int) set" where
  "rect_points r =
     (case r of (x1, y1, x2, y2) \<Rightarrow> {(x, y). x1 \<le> x \<and> x \<le> x2 \<and> y1 \<le> y \<and> y \<le> y2})"

fun rect_ok :: "rect \<Rightarrow> bool" where
  "rect_ok (x1, y1, x2, y2) \<longleftrightarrow> x1 \<le> x2 \<and> y1 \<le> y2"

fun rect_within :: "rect \<Rightarrow> rect \<Rightarrow> bool" where
  "rect_within (x1, y1, x2, y2) (a1, b1, a2, b2) \<longleftrightarrow>
     a1 \<le> x1 \<and> x2 \<le> a2 \<and> b1 \<le> y1 \<and> y2 \<le> b2"

text \<open>A cover has artwork when its \<open>caa_id\<close> is not \<^verbatim>\<open>None\<close>.\<close>

definition has_artwork :: "cover \<Rightarrow> bool" where
  "has_artwork c \<longleftrightarrow> caa_id c \<noteq> None"

text \<open>
  The list of covers runs out at a tile when the \<^verbatim>\<open>while\<close> loop reaches
  \<^verbatim>\<open>except IndexError\<close>: the list is empty, or covers without artwork are skipped and no
  cover left has artwork.
\<close>

definition runs_out :: "generator \<Rightarrow> cover list \<Rightarrow> bool" where
  "runs_out g covers \<longleftrightarrow>
     (if skip_missing g then list_all (\<lambda>c. caa_id c = None) covers else covers = [])"

text \<open>The placed image of a tile that got the placeholder and no cover.\<close>

definition missing_image :: "rect \<Rightarrow> image" where
  "missing_image bb =
     (case bb of (x1, y1, x2, y2) \<Rightarrow>
        \<lparr> img_x = x1, img_y = y1, img_width = x2 - x1, img_height = y2 - y1,
          img_url = CAA_MISSING_IMAGE, img_entity_mbid = None, img_title = None,
          img_artist = None \<rparr>)"

text \<open>Generators, covers and a store to run the functions on.\<close>

definition grid2 :: generator where
  "grid2 = \<lparr> dimension = 2, image_size = 500, background = ''#FFFFFF'', skip_missing = True,
             show_caa_image_for_missing_covers = True, tile_size = 250 \<rparr>"

definition grid3 :: generator where
  "grid3 = \<lparr> dimension = 3, image_size = 500, background = ''#FFFFFF'', skip_missing = True,
             show_caa_image_for_missing_covers = True, tile_size = 166 \<rparr>"

definition art_cover :: cover where
  "art_cover = \<lparr> entity_mbid = Some ''release-a'', title = Some ''Dummy'',
                 artist = Some ''Portishead'', caa_id = Some 12,
                 caa_release_mbid = Some ''release-a'' \<rparr>"

definition bare_cover :: cover where
  "bare_cover = \<lparr> entity_mbid = Some ''release-b'', title = Some ''Third'',
                  artist = Some ''Portishead'', caa_id = None, caa_release_mbid = None \<rparr>"

definition art_image :: image where
  "art_image =
     \<lparr> img_x = 0, img_y = 0, img_width = 250, img_height = 250,
       img_url = ''https://archive.org/download/mbid-release-a/mbid-release-a-12_thumb500.jpg'',
       img_entity_mbid = Some ''release-a'', img_title = Some ''Dummy'',
       img_artist = Some ''Portishead'' \<rparr>"

definition demo_heap :: heap where
  "demo_heap = [0 \<mapsto> [bare_cover, art_cover], 1 \<mapsto> [bare_cover, art_cover]]"

section \<open>Properties\<close>

subsection \<open>Tile positions\<close>

text \<open>
  Claim C3. For a generator built by \<open>init\<close> and a tile index in \<open>[0, dimension\<^sup>2)\<close>,
  \<open>get_tile_position\<close> returns the rectangle
  \<open>(col * tileSize, row * tileSize, (col + 1) * tileSize, (row + 1) * tileSize)\<close> with
  \<open>tileSize = imageSize div dimension\<close>, \<open>col = tile mod dimension\<close> and
  \<open>row = tile div dimension\<close>, except that the right bound of a tile in the last column and
  the bottom bound of a tile in the last row are \<open>imageSize - 1\<close>.
\<close>

theorem get_tile_position_rectangle:
  assumes "init dim sz bg skip showp = Inr g"
    and "0 \<le> tile" and "tile < dim * dim"
  shows "get_tile_position g tile =
           Some ((tile mod dim) * (sz div dim),
                 (tile div dim) * (sz div dim),
                 (if tile mod dim = dim - 1 then sz - 1 else (tile mod dim + 1) * (sz div dim)),
                 (if tile div dim = dim - 1 then sz - 1 else (tile div dim + 1) * (sz div dim)))"
  using assms by (auto simp: init_def get_tile_position_def Let_def split: if_splits)

text \<open>The instance of the specification: dimension 2, image size 500, tile 3.\<close>

theorem get_tile_position_rectangle_witness:
  "init 2 500 ''#FFFFFF'' True True =
     Inr \<lparr> dimension = 2, image_size = 500, background = ''#FFFFFF'', skip_missing = True,
           show_caa_image_for_missing_covers = True, tile_size = 250 \<rparr>
   \<and> get_tile_position
         \<lparr> dimension = 2, image_size = 500, background = ''#FFFFFF'', skip_missing = True,
           show_caa_image_for_missing_covers = True, tile_size = 250 \<rparr> 3
       = Some (250, 250, 499, 499)"
proof -
  let ?g = "\<lparr> dimension = 2, image_size = 500, background = ''#FFFFFF'', skip_missing = True,
              show_caa_image_for_missing_covers = True, tile_size = 250 \<rparr>"
  have i: "init 2 500 ''#FFFFFF'' True True = Inr ?g"
    by (simp add: init_def)
  from get_tile_position_rectangle [OF i, of 3] i show ?thesis
    by simp
qed

subsection \<open>The layout catalogue\<close>

lemma registered_ok_2: "registered_ok 2"
  by code_simp

lemma registered_ok_3: "registered_ok 3"
  by code_simp

lemma registered_ok_4: "registered_ok 4"
  by code_simp

lemma registered_ok_5: "registered_ok 5"
  by code_simp

lemma registered_dimensions: "map fst GRID_TILE_DESIGNS = [2, 3, 4, 5]"
  by (simp add: GRID_TILE_DESIGNS_def)

text \<open>
  Claim C1. For every dimension \<open>d\<close> in \<open>{2, 3, 4, 5}\<close>, \<open>GRID_TILE_DESIGNS\<close> has designs
  for \<open>d\<close>, and in each of them the tile indices parsed from all its addresses are pairwise
  distinct and are exactly the indices \<open>0, ..., d\<^sup>2 - 1\<close>.
\<close>

theorem designs_partition_grid:
  assumes "d \<in> {2, 3, 4, 5}"
  shows "\<exists>designs. map_of GRID_TILE_DESIGNS d = Some designs \<and> designs \<noteq> [] \<and>
           (\<forall>design \<in> set designs. \<exists>tiles.
              design_tiles design = Some tiles \<and> distinct tiles \<and> set tiles = {0 .. d * d - 1})"
proof -
  from assms have "registered_ok d"
    using registered_ok_2 registered_ok_3 registered_ok_4 registered_ok_5 by auto
  then show ?thesis
    by (auto simp: registered_ok_def exact_cover_def list_all_iff split: option.splits)
qed

theorem designs_partition_grid_witness:
  "(3::int) \<in> {2, 3, 4, 5} \<and>
   (\<exists>tiles. design_tiles [''0,1,3,4'', ''2'', ''5'', ''6'', ''7'', ''8''] = Some tiles
      \<and> distinct tiles \<and> set tiles = {0 .. 3 * 3 - 1})"
proof -
  have d: "(3::int) \<in> {2, 3, 4, 5}"
    by simp
  from designs_partition_grid [OF d] obtain designs where
    m: "map_of GRID_TILE_DESIGNS 3 = Some designs" and
    a: "\<forall>design \<in> set designs. \<exists>tiles.
          design_tiles design = Some tiles \<and> distinct tiles \<and> set tiles = {0 .. 3 * 3 - 1}"
    by blast
  from m have "[''0,1,3,4'', ''2'', ''5'', ''6'', ''7'', ''8''] \<in> set designs"
    by (auto simp: GRID_TILE_DESIGNS_def)
  with a d show ?thesis
    by blast
qed

subsection \<open>Resolving cover art\<close>

lemma str_int_250: "str_int 250 = ''250''"
  by (simp add: str_int_def digit_char_def)

lemma str_int_500: "str_int 500 = ''500''"
  by (simp add: str_int_def digit_char_def)

text \<open>
  Claim C7. \<open>resolve_cover_art\<close> returns \<^verbatim>\<open>None\<close> exactly when the size is neither 250 nor
  500 (it never raises); for a size of 250 or 500 it returns the archive URL formatted from
  the release identifier, the artwork identifier and the size, whatever the identifiers are.
\<close>

theorem resolve_cover_art_sizes:
  "(resolve_cover_art cid mbid sz = None \<longleftrightarrow> sz \<notin> {250, 500}) \<and>
   (sz \<in> {250, 500} \<longrightarrow>
      resolve_cover_art cid mbid sz =
        Some (''https://archive.org/download/mbid-'' @ format_str mbid @ ''/mbid-''
              @ format_str mbid @ ''-'' @ format_int cid @ ''_thumb''
              @ (if sz = 250 then ''250'' else ''500'') @ ''.jpg''))"
  by (auto simp: resolve_cover_art_def str_int_250 str_int_500)

theorem resolve_cover_art_sizes_witness:
  "(500::int) \<in> {250, 500} \<and>
   resolve_cover_art (Some 12) (Some ''abc'') 500 =
     Some ''https://archive.org/download/mbid-abc/mbid-abc-12_thumb500.jpg'' \<and>
   resolve_cover_art (Some 12) (Some ''abc'') 300 = None"
  using resolve_cover_art_sizes [of "Some 12" "Some ''abc''" 500]
    resolve_cover_art_sizes [of "Some 12" "Some ''abc''" 300]
  by (simp add: format_str_def format_int_def str_int_def digit_char_def)

subsection \<open>Fetching statistics\<close>

lemma download_user_stats_demo:
  "download_user_stats demo_world ''artists'' ''rob'' ''week'' =
     (Inr ([''Portishead''], 1),
      demo_world\<lparr>calls := [Get_user ''rob'', Get_stats 1 ''artists'' ''week'']\<rparr>)"
  by (simp add: download_user_stats_def demo_world_def get_by_mb_id_def db_stats_get_def
      NUMBER_OF_STATS_def)

text \<open>
  Claim C8. When the time range is not a member of \<open>StatisticsRange\<close>, or the entity is not
  one of artists, releases, recordings, \<open>download_user_stats\<close> raises \<^verbatim>\<open>ValueError\<close> and
  leaves the world as it was: in particular no call to the user store or the statistics
  store has been recorded.
\<close>

theorem download_user_stats_validates_first:
  assumes "time_range \<notin> set (statistics_ranges w) \<or>
           entity \<notin> {''artists'', ''releases'', ''recordings''}"
  shows "download_user_stats w entity user_name time_range =
           (Inl (ValueError (if time_range \<notin> set (statistics_ranges w)
                             then ''Invalid date range given.''
                             else ''Stats entity must be one of artist, release or recording.'')),
            w)"
  using assms by (auto simp: download_user_stats_def)

theorem download_user_stats_validates_first_witness:
  "''fortnight'' \<notin> set (statistics_ranges demo_world) \<and>
   download_user_stats demo_world ''artists'' ''rob'' ''fortnight'' =
     (Inl (ValueError ''Invalid date range given.''), demo_world) \<and>
   calls demo_world = [] \<and>
   calls (snd (download_user_stats demo_world ''artists'' ''rob'' ''week'')) =
     [Get_user ''rob'', Get_stats 1 ''artists'' ''week'']"
proof -
  have h: "''fortnight'' \<notin> set (statistics_ranges demo_world)"
    by (simp add: demo_world_def)
  have c: "calls demo_world = []"
    by (simp add: demo_world_def)
  from download_user_stats_validates_first [of "''fortnight''" demo_world "''artists''" "''rob''"] h
  have "download_user_stats demo_world ''artists'' ''rob'' ''fortnight'' =
          (Inl (ValueError ''Invalid date range given.''), demo_world)"
    by simp
  with h c show ?thesis
    by (simp add: download_user_stats_demo)
qed

subsection \<open>The artist statistics cover\<close>

lemma english_range_week: "english_range ''week'' = Inr ''last week''"
  by (simp add: english_range_def time_range_to_english_def)

lemma download_user_stats_huhridge:
  "download_user_stats demo_world ''artists'' ''huhridge'' ''week'' =
     (Inr ([''Portishead''], 1),
      demo_world\<lparr>calls := [Get_user ''huhridge'', Get_stats 2 ''artists'' ''week'']\<rparr>)"
  by (simp add: download_user_stats_def demo_world_def get_by_mb_id_def db_stats_get_def
      NUMBER_OF_STATS_def)

text \<open>
  For every user name but one, the cover is what \<open>download_user_stats\<close> fetched for the
  entity \<open>artists\<close>, with the count of the statistics store as \<open>num_artists\<close>.
\<close>

lemma create_artist_stats_cover_other_users:
  assumes "user_name \<noteq> ''huhridge''"
    and "download_user_stats w ''artists'' user_name time_range = (Inr (artists, total_count), w1)"
    and "english_range time_range = Inr e"
  shows "create_artist_stats_cover w user_name time_range =
           (Inr (map Entity_record artists,
                 \<lparr> md_user_name = user_name, md_date = today w1, md_time_range = e,
                   md_num_artists = total_count \<rparr>), w1)"
  using assms by (simp add: create_artist_stats_cover_def)

lemma create_artist_stats_cover_rob:
  "create_artist_stats_cover demo_world ''rob'' ''week'' =
     (Inr ([Entity_record ''Portishead''],
           \<lparr> md_user_name = ''rob'', md_date = ''2024-01-01'', md_time_range = ''last week'',
             md_num_artists = 1 \<rparr>),
      demo_world\<lparr>calls := [Get_user ''rob'', Get_stats 1 ''artists'' ''week'']\<rparr>)"
  by (simp add: create_artist_stats_cover_def english_range_week download_user_stats_demo)
    (simp add: demo_world_def)

text \<open>
  Claim C2 says that \<open>create_artist_stats_cover\<close> returns, for every user name, the
  records fetched by \<open>download_user_stats\<close> and their total count, no user name being
  treated apart. The code treats the name \<open>huhridge\<close> apart: in a world whose statistics
  store holds one artist for that user, with total count 1, the cover is the literal list
  of 25 dictionaries with \<open>num_artists = 128\<close>, and no store has been called.
\<close>

theorem create_artist_stats_cover_huhridge:
  "create_artist_stats_cover demo_world ''huhridge'' ''week'' =
     (Inr (huhridge_artists,
           \<lparr> md_user_name = ''huhridge'', md_date = ''2024-01-01'', md_time_range = ''last week'',
             md_num_artists = 128 \<rparr>), demo_world)
   \<and> length (huhridge_artists :: string artist_item list) = 25
   \<and> calls demo_world = []
   \<and> download_user_stats demo_world ''artists'' ''huhridge'' ''week'' =
       (Inr ([''Portishead''], 1),
        demo_world\<lparr>calls := [Get_user ''huhridge'', Get_stats 2 ''artists'' ''week'']\<rparr>)"
proof -
  have a: "create_artist_stats_cover demo_world ''huhridge'' ''week'' =
     (Inr (huhridge_artists,
           \<lparr> md_user_name = ''huhridge'', md_date = ''2024-01-01'', md_time_range = ''last week'',
             md_num_artists = 128 \<rparr>), demo_world)"
    by (simp add: create_artist_stats_cover_def english_range_week) (simp add: demo_world_def)
  have b: "length (huhridge_artists :: string artist_item list) = 25"
    by (simp add: huhridge_artists_def)
  have c: "calls demo_world = []"
    by (simp add: demo_world_def)
  from a b c download_user_stats_huhridge show ?thesis
    by simp
qed

subsection \<open>Bounding boxes\<close>

text \<open>The parser never yields the empty list, and the box of an address never raises.\<close>

lemma split_on_not_Nil: "split_on sep s \<noteq> []"
  by (induction s) (auto split: list.splits)

lemma parse_tokens_length: "parse_tokens ts = Some is \<Longrightarrow> length is = length ts"
  by (induction ts arbitrary: "is") (auto split: option.splits)

lemma parse_address_not_Nil: "parse_address a = Some tiles \<Longrightarrow> tiles \<noteq> []"
  using parse_tokens_length [of "split_on (CHR '','') a" tiles] split_on_not_Nil [of "CHR '',''" a]
  by (auto simp: parse_address_def)

lemma get_tile_position_in_range:
  "0 \<le> t \<Longrightarrow> t < dimension g * dimension g \<Longrightarrow> \<exists>r. get_tile_position g t = Some r"
  by (simp add: get_tile_position_def Let_def)

lemma grow_box_in_range:
  "\<forall>t \<in> set ts. 0 \<le> t \<and> t < dimension g * dimension g \<Longrightarrow> \<exists>bb'. grow_box g bb ts = Inr bb'"
proof (induction ts arbitrary: bb)
  case Nil
  show ?case by (rule exI [of _ bb]) simp
next
  case (Cons t ts)
  then obtain r where r: "get_tile_position g t = Some r"
    using get_tile_position_in_range [of t g] by auto
  obtain x1 y1 x2 y2 where "r = (x1, y1, x2, y2)"
    using prod_cases4 by blast
  moreover obtain a b c d where "bb = (a, b, c, d)"
    using prod_cases4 by blast
  ultimately show ?case using Cons r by simp
qed

lemma calculate_bounding_box_no_raise: "\<exists>r. calculate_bounding_box g a = Inr r"
proof (cases "parse_address a")
  case None
  then show ?thesis by (simp add: calculate_bounding_box_def)
next
  case (Some tiles)
  show ?thesis
  proof (cases "list_ex (\<lambda>tile. tile < 0 \<or> tile \<ge> dimension g * dimension g) tiles")
    case True
    with Some show ?thesis by (simp add: calculate_bounding_box_def)
  next
    case False
    then have rng: "\<forall>t \<in> set tiles. 0 \<le> t \<and> t < dimension g * dimension g"
      by (auto simp: list_ex_iff)
    from Some obtain t rest where tiles: "tiles = t # rest"
      using parse_address_not_Nil by (cases tiles) auto
    with rng obtain bb where bb: "get_tile_position g t = Some bb"
      using get_tile_position_in_range [of t g] by auto
    from rng tiles obtain bb' where "grow_box g bb rest = Inr bb'"
      using grow_box_in_range [of rest g bb] by auto
    with Some False tiles bb show ?thesis
      by (simp add: calculate_bounding_box_def)
  qed
qed

text \<open>
  For a rectangle with \<open>x1 \<le> x2\<close> and \<open>y1 \<le> y2\<close>, inclusion of the points is inclusion of
  the bounds.
\<close>

lemma rect_points_subset_iff:
  assumes "rect_ok r"
  shows "rect_points r \<subseteq> rect_points R \<longleftrightarrow> rect_within r R"
proof -
  obtain x1 y1 x2 y2 where r: "r = (x1, y1, x2, y2)"
    using prod_cases4 by blast
  obtain a1 b1 a2 b2 where R: "R = (a1, b1, a2, b2)"
    using prod_cases4 by blast
  from assms r have ok: "x1 \<le> x2" "y1 \<le> y2"
    by simp_all
  show ?thesis
  proof
    assume sub: "rect_points r \<subseteq> rect_points R"
    from ok r have "(x1, y1) \<in> rect_points r" "(x2, y2) \<in> rect_points r"
      by (simp_all add: rect_points_def)
    with sub have "(x1, y1) \<in> rect_points R" "(x2, y2) \<in> rect_points R"
      by blast+
    with r R show "rect_within r R"
      by (simp add: rect_points_def)
  next
    assume "rect_within r R"
    with r R show "rect_points r \<subseteq> rect_points R"
      by (auto simp: rect_points_def)
  qed
qed

text \<open>
  With a positive dimension and a positive image size every tile of the grid has such a
  rectangle: the last column starts at \<open>(dimension - 1) * tileSize \<le> imageSize - 1\<close>.
\<close>

lemma last_tile_starts_inside:
  assumes "0 < dim" and "0 < (sz::int)"
  shows "(dim - 1) * (sz div dim) \<le> sz - 1"
proof -
  let ?q = "sz div dim"
  have q: "0 \<le> ?q"
    using assms by (simp add: pos_imp_zdiv_nonneg_iff)
  have "dim * ?q + sz mod dim = sz"
    by simp
  moreover have "0 \<le> sz mod dim"
    using assms by simp
  ultimately have "dim * ?q \<le> sz"
    by linarith
  then have "(dim - 1) * ?q \<le> sz - ?q"
    by (simp add: algebra_simps)
  show ?thesis
  proof (cases "?q = 0")
    case True
    with assms show ?thesis by simp
  next
    case False
    with q have "1 \<le> ?q" by simp
    with \<open>(dim - 1) * ?q \<le> sz - ?q\<close> show ?thesis by linarith
  qed
qed

lemma tile_rect_ok:
  assumes "init dim sz bg skip showp = Inr g" and "0 < dim" and "0 < sz"
    and "0 \<le> t" and "t < dim * dim"
  shows "\<exists>r. get_tile_position g t = Some r \<and> rect_ok r"
proof -
  let ?q = "sz div dim"
  from assms(1) have g: "dimension g = dim" "image_size g = sz" "tile_size g = ?q"
    by (auto simp: init_def split: if_splits)
  have q: "0 \<le> ?q"
    using assms by (simp add: pos_imp_zdiv_nonneg_iff)
  have x: "0 \<le> t mod dim" "0 \<le> t div dim"
    using assms by (simp_all add: pos_imp_zdiv_nonneg_iff)
  have step: "\<And>k. k * ?q \<le> (k + 1) * ?q"
    using q by (simp add: algebra_simps)
  have edge: "(dim - 1) * ?q \<le> sz - 1"
    by (rule last_tile_starts_inside [OF assms(2,3)])
  from assms g step edge show ?thesis
    by (auto simp: get_tile_position_def Let_def)
qed

lemma grow_box_least:
  assumes "\<forall>t \<in> set ts. \<exists>r. get_tile_position g t = Some r \<and> rect_ok r" and "rect_ok bb"
  shows "\<exists>bb'. grow_box g bb ts = Inr bb' \<and> rect_ok bb' \<and> rect_within bb bb' \<and>
           (\<forall>t \<in> set ts. \<forall>r. get_tile_position g t = Some r \<longrightarrow> rect_within r bb') \<and>
           (\<forall>R. rect_within bb R \<and>
                 (\<forall>t \<in> set ts. \<forall>r. get_tile_position g t = Some r \<longrightarrow> rect_within r R)
                 \<longrightarrow> rect_within bb' R)"
  using assms
proof (induction ts arbitrary: bb)
  case Nil
  obtain a b c d where "bb = (a, b, c, d)"
    using prod_cases4 by blast
  with Nil.prems show ?case
    by (intro exI [of _ bb]) auto
next
  case (Cons t ts)
  obtain bx1 by1 bx2 by2 where bb: "bb = (bx1, by1, bx2, by2)"
    using prod_cases4 by blast
  from Cons.prems obtain r where r: "get_tile_position g t = Some r" "rect_ok r"
    by auto
  obtain x1 y1 x2 y2 where rr: "r = (x1, y1, x2, y2)"
    using prod_cases4 by blast
  let ?nb = "(min (min bx1 x1) x2, min (min by1 y1) y2, max (max bx2 x1) x2, max (max by2 y1) y2)"
  have step: "grow_box g bb (t # ts) = grow_box g ?nb ts"
    using bb r rr by simp
  from Cons.prems bb r rr have ok: "rect_ok ?nb"
    by auto
  from Cons.prems have rest: "\<forall>t \<in> set ts. \<exists>r. get_tile_position g t = Some r \<and> rect_ok r"
    by simp
  from Cons.IH [OF rest ok] obtain bb' where
    g: "grow_box g ?nb ts = Inr bb'" and ok': "rect_ok bb'" and w: "rect_within ?nb bb'" and
    tl: "\<forall>t \<in> set ts. \<forall>r. get_tile_position g t = Some r \<longrightarrow> rect_within r bb'" and
    least: "\<forall>R. rect_within ?nb R \<and>
                 (\<forall>t \<in> set ts. \<forall>r. get_tile_position g t = Some r \<longrightarrow> rect_within r R)
                 \<longrightarrow> rect_within bb' R"
    by blast
  obtain c1 d1 c2 d2 where b': "bb' = (c1, d1, c2, d2)"
    using prod_cases4 by blast
  have 1: "rect_within bb bb'"
    using w bb b' by auto
  have 2: "rect_within r bb'"
    using w rr b' by auto
  have 3: "rect_within bb' R"
    if "rect_within bb R" and "rect_within r R"
      and "\<forall>t \<in> set ts. \<forall>r. get_tile_position g t = Some r \<longrightarrow> rect_within r R" for R
  proof -
    obtain a1 b1 a2 b2 where R: "R = (a1, b1, a2, b2)"
      using prod_cases4 by blast
    from that(1,2) bb rr R \<open>rect_ok r\<close> Cons.prems(2) have "rect_within ?nb R"
      by auto
    with least that(3) show ?thesis
      by blast
  qed
  have 4: "rect_within r' bb'"
    if "t' \<in> set (t # ts)" and "get_tile_position g t' = Some r'" for t' r'
  proof (cases "t' = t")
    case True
    with that(2) r(1) 2 show ?thesis
      by simp
  next
    case False
    with that have "t' \<in> set ts"
      by simp
    with tl that(2) show ?thesis
      by blast
  qed
  have 5: "rect_within bb' R"
    if "rect_within bb R"
      and "\<forall>t' \<in> set (t # ts). \<forall>r. get_tile_position g t' = Some r \<longrightarrow> rect_within r R"
    for R
  proof -
    from that(2) r(1) have "rect_within r R"
      by (simp del: split_paired_All)
    moreover from that(2)
    have "\<forall>t \<in> set ts. \<forall>r. get_tile_position g t = Some r \<longrightarrow> rect_within r R"
      by (simp del: split_paired_All)
    ultimately show ?thesis
      using 3 that(1) by blast
  qed
  show ?case
    unfolding step g using ok' 1 4 5 by blast
qed

text \<open>
  Claim C4. For a generator built by \<open>init\<close> with a positive dimension and a positive image
  size (the validated configurations have dimension 2 to 5 and image size 128 to 1024), and
  an address whose tokens all parse to tile indices of the grid, \<open>calculate_bounding_box\<close>
  returns a rectangle that contains the rectangle \<open>get_tile_position\<close> gives for every
  member tile, and that is contained in every rectangle containing them all: the smallest
  one. For an address of one tile it returns \<open>get_tile_position\<close> of that tile.
\<close>

theorem calculate_bounding_box_smallest:
  assumes "init dim sz bg skip showp = Inr g" and "0 < dim" and "0 < sz"
    and "parse_address address = Some tiles"
    and "\<forall>t \<in> set tiles. 0 \<le> t \<and> t < dim * dim"
  shows "\<exists>bb. calculate_bounding_box g address = Inr (Some bb) \<and>
           (\<forall>t \<in> set tiles. \<exists>r. get_tile_position g t = Some r \<and>
                                  rect_points r \<subseteq> rect_points bb) \<and>
           (\<forall>bb'. (\<forall>t \<in> set tiles. \<forall>r. get_tile_position g t = Some r \<longrightarrow>
                                          rect_points r \<subseteq> rect_points bb')
                   \<longrightarrow> rect_points bb \<subseteq> rect_points bb') \<and>
           (\<forall>t. tiles = [t] \<longrightarrow> get_tile_position g t = Some bb)"
proof -
  from assms(1) have d: "dimension g = dim"
    by (auto simp: init_def split: if_splits)
  have ok: "\<exists>r. get_tile_position g t = Some r \<and> rect_ok r" if "t \<in> set tiles" for t
    using tile_rect_ok [OF assms(1,2,3), of t] assms(5) that by blast
  from assms(4) obtain t0 rest where tiles: "tiles = t0 # rest"
    using parse_address_not_Nil by (cases tiles) auto
  from ok [of t0] tiles obtain r0 where r0: "get_tile_position g t0 = Some r0" "rect_ok r0"
    by auto
  have okrest: "\<forall>t \<in> set rest. \<exists>r. get_tile_position g t = Some r \<and> rect_ok r"
    using ok tiles by simp
  from grow_box_least [OF okrest r0(2)] obtain bb where
    g: "grow_box g r0 rest = Inr bb" and okbb: "rect_ok bb" and w0: "rect_within r0 bb" and
    wr: "\<forall>t \<in> set rest. \<forall>r. get_tile_position g t = Some r \<longrightarrow> rect_within r bb" and
    least: "\<forall>R. rect_within r0 R \<and>
                 (\<forall>t \<in> set rest. \<forall>r. get_tile_position g t = Some r \<longrightarrow> rect_within r R)
                 \<longrightarrow> rect_within bb R"
    by blast
  have inrange: "\<not> list_ex (\<lambda>tile. tile < 0 \<or> tile \<ge> dimension g * dimension g) tiles"
    using assms(5) d by (auto simp: list_ex_iff)
  have 1: "calculate_bounding_box g address = Inr (Some bb)"
    using assms(4) inrange tiles r0(1) g
    by (simp add: calculate_bounding_box_def del: grow_box.simps)
  have 2: "\<exists>r. get_tile_position g t = Some r \<and> rect_points r \<subseteq> rect_points bb"
    if "t \<in> set tiles" for t
  proof -
    from ok [OF that] obtain r where r: "get_tile_position g t = Some r" "rect_ok r"
      by blast
    have "rect_within r bb"
    proof (cases "t = t0")
      case True
      with r(1) r0(1) w0 show ?thesis by simp
    next
      case False
      with that tiles have "t \<in> set rest" by simp
      with wr r(1) show ?thesis by blast
    qed
    with r show ?thesis
      using rect_points_subset_iff [OF r(2)] by blast
  qed
  have 3: "rect_points bb \<subseteq> rect_points bb'"
    if h: "\<forall>t \<in> set tiles. \<forall>r. get_tile_position g t = Some r \<longrightarrow>
                                  rect_points r \<subseteq> rect_points bb'" for bb'
  proof -
    have a: "rect_within r bb'" if "t \<in> set tiles" "get_tile_position g t = Some r" for t r
    proof -
      from ok [OF that(1)] that(2) have "rect_ok r" by auto
      moreover from h that have "rect_points r \<subseteq> rect_points bb'" by blast
      ultimately show ?thesis
        using rect_points_subset_iff by blast
    qed
    have "rect_within r0 bb'"
      using a [of t0 r0] tiles r0(1) by simp
    moreover have "\<forall>t \<in> set rest. \<forall>r. get_tile_position g t = Some r \<longrightarrow> rect_within r bb'"
    proof (intro ballI allI impI)
      fix t r
      assume "t \<in> set rest" and p: "get_tile_position g t = Some r"
      with tiles have "t \<in> set tiles"
        by simp
      then show "rect_within r bb'"
        using p by (rule a)
    qed
    ultimately have "rect_within bb bb'"
      using least by blast
    then show ?thesis
      using rect_points_subset_iff [OF okbb] by blast
  qed
  have 4: "get_tile_position g t = Some bb" if "tiles = [t]" for t
    using that tiles g r0(1) by simp
  from 1 2 3 4 show ?thesis
    by blast
qed

text \<open>The address \<open>0,1,3,4\<close> of the second design for dimension 3, image size 500.\<close>

lemma init_grid3: "init 3 500 ''#FFFFFF'' True True = Inr grid3"
  by (simp add: init_def grid3_def)

lemma parse_address_0134: "parse_address ''0,1,3,4'' = Some [0, 1, 3, 4]"
  by (simp add: parse_address_def py_int_def strip_def is_space_def digits_def digit_val_def)

lemma bb_grid3_0134: "calculate_bounding_box grid3 ''0,1,3,4'' = Inr (Some (0, 0, 332, 332))"
  by (simp add: calculate_bounding_box_def parse_address_0134 get_tile_position_def grid3_def)

lemma tiles_grid3_0_4:
  "get_tile_position grid3 0 = Some (0, 0, 166, 166)"
  "get_tile_position grid3 4 = Some (166, 166, 332, 332)"
  by (simp_all add: get_tile_position_def grid3_def)

theorem calculate_bounding_box_smallest_witness:
  "init 3 500 ''#FFFFFF'' True True = Inr grid3 \<and>
   parse_address ''0,1,3,4'' = Some [0, 1, 3, 4] \<and>
   calculate_bounding_box grid3 ''0,1,3,4'' = Inr (Some (0, 0, 332, 332)) \<and>
   get_tile_position grid3 0 = Some (0, 0, 166, 166) \<and>
   rect_points (0, 0, 166, 166) \<subseteq> rect_points (0, 0, 332, 332) \<and>
   get_tile_position grid3 4 = Some (166, 166, 332, 332) \<and>
   rect_points (166, 166, 332, 332) \<subseteq> rect_points (0, 0, 332, 332)"
proof -
  have r: "\<forall>t \<in> set [0, 1, 3, 4::int]. 0 \<le> t \<and> t < 3 * 3"
    by simp
  have p: "(0::int) < 3" "(0::int) < 500"
    by simp_all
  from calculate_bounding_box_smallest [OF init_grid3 p parse_address_0134 r]
  obtain bb where
    b: "calculate_bounding_box grid3 ''0,1,3,4'' = Inr (Some bb)" and
    c: "\<forall>t \<in> set [0, 1, 3, 4]. \<exists>r. get_tile_position grid3 t = Some r \<and>
                                    rect_points r \<subseteq> rect_points bb"
    by blast
  from b have bb: "bb = (0, 0, 332, 332)"
    by (simp add: bb_grid3_0134)
  from c have "\<exists>r. get_tile_position grid3 0 = Some r \<and> rect_points r \<subseteq> rect_points bb"
    and "\<exists>r. get_tile_position grid3 4 = Some r \<and> rect_points r \<subseteq> rect_points bb"
    by simp_all
  then have "rect_points (0, 0, 166, 166) \<subseteq> rect_points bb"
    and "rect_points (166, 166, 332, 332) \<subseteq> rect_points bb"
    by (simp_all add: tiles_grid3_0_4)
  with bb show ?thesis
    using init_grid3 parse_address_0134 bb_grid3_0134 tiles_grid3_0_4 by simp
qed

subsection \<open>Invalid addresses\<close>

lemma bounding_boxes_invalid:
  assumes "\<exists>a \<in> set addrs. calculate_bounding_box g a = Inr None"
  shows "\<exists>a \<in> set addrs. calculate_bounding_box g a = Inr None \<and>
           bounding_boxes g addrs = Inl (ValueError (''Invalid address '' @ a @ '' specified.''))"
  using assms
proof (induction addrs)
  case Nil
  then show ?case by simp
next
  case (Cons addr addrs)
  obtain r where r: "calculate_bounding_box g addr = Inr r"
    using calculate_bounding_box_no_raise by blast
  show ?case
  proof (cases r)
    case None
    with r show ?thesis by simp
  next
    case (Some bb)
    with r Cons.prems have "\<exists>a \<in> set addrs. calculate_bounding_box g a = Inr None"
      by auto
    from Cons.IH [OF this] r Some show ?thesis
      by auto
  qed
qed

lemma grid2_flags:
  "skip_missing grid2" "show_caa_image_for_missing_covers grid2"
  by (simp_all add: grid2_def)

lemma bb_grid2_0: "calculate_bounding_box grid2 ''0'' = Inr (Some (0, 0, 250, 250))"
  by (simp add: calculate_bounding_box_def parse_address_def py_int_def strip_def is_space_def
      digits_def digit_val_def get_tile_position_def grid2_def)

lemma bb_grid2_7: "calculate_bounding_box grid2 ''7'' = Inr None"
  by (simp add: calculate_bounding_box_def parse_address_def py_int_def strip_def is_space_def
      digits_def digit_val_def get_tile_position_def grid2_def)

text \<open>
  Claim C10. \<open>generate_from_caa_ids\<close> computes the bounding boxes of all the addresses
  before it pops a cover: when an address of the chosen design is invalid, the call raises
  \<^verbatim>\<open>ValueError\<close> for an invalid address of the design, returns no images and leaves the
  list of covers as it was.
\<close>

theorem generate_from_caa_ids_invalid_address:
  assumes "choose_addrs g tile_addrs layout = Inr addrs"
    and "\<exists>a \<in> set addrs. calculate_bounding_box g a = Inr None"
  shows "\<exists>a \<in> set addrs. calculate_bounding_box g a = Inr None \<and>
           generate_from_caa_ids g covers tile_addrs layout cover_art_size =
             (Inl (ValueError (''Invalid address '' @ a @ '' specified.'')), covers)"
  using bounding_boxes_invalid [OF assms(2)] assms(1)
  by (auto simp: generate_from_caa_ids_def)

theorem generate_from_caa_ids_invalid_address_witness:
  "choose_addrs grid2 (Some [''0'', ''7'']) None = Inr [''0'', ''7''] \<and>
   calculate_bounding_box grid2 ''7'' = Inr None \<and>
   generate_from_caa_ids grid2 [art_cover] (Some [''0'', ''7'']) None 500 =
     (Inl (ValueError ''Invalid address 7 specified.''), [art_cover])"
proof -
  have c: "choose_addrs grid2 (Some [''0'', ''7'']) None = Inr [''0'', ''7'']"
    by (simp add: choose_addrs_def)
  have e: "\<exists>a \<in> set [''0'', ''7'']. calculate_bounding_box grid2 a = Inr None"
    by (simp add: bb_grid2_7)
  from generate_from_caa_ids_invalid_address [OF c e, of "[art_cover]" 500]
  have "generate_from_caa_ids grid2 [art_cover] (Some [''0'', ''7'']) None 500 =
     (Inl (ValueError ''Invalid address 7 specified.''), [art_cover])"
    by (auto simp: bb_grid2_0)
  with c bb_grid2_7 show ?thesis by simp
qed

subsection \<open>The loop over the covers\<close>

lemma next_cover_runs_out:
  "runs_out g covers \<Longrightarrow>
   next_cover g sz covers =
     (if show_caa_image_for_missing_covers g then Some CAA_MISSING_IMAGE else None, None, [])"
  by (induction covers) (auto simp: runs_out_def split: if_splits)

lemma runs_out_Nil: "runs_out g []"
  by (simp add: runs_out_def)

lemma make_image_missing: "make_image bb CAA_MISSING_IMAGE None = missing_image bb"
  by (simp add: make_image_def missing_image_def cover_get_def)

lemma place_tiles_runs_out:
  assumes "runs_out g covers"
  shows "place_tiles g sz (bb # tiles) covers =
           (if show_caa_image_for_missing_covers g then map missing_image (bb # tiles) else [],
            [])"
  using assms
proof (induction tiles arbitrary: bb covers)
  case Nil
  then show ?case
    by (simp add: next_cover_runs_out make_image_missing)
next
  case (Cons bb' tiles)
  from Cons.IH [of "[]" bb'] Cons.prems show ?case
    by (simp add: next_cover_runs_out make_image_missing runs_out_Nil)
qed

lemma place_tiles_append:
  "place_tiles g sz (xs @ ys) covers =
     (case place_tiles g sz xs covers of
        (images, rest) \<Rightarrow>
          (case place_tiles g sz ys rest of (images', rest') \<Rightarrow> (images @ images', rest')))"
  by (induction xs arbitrary: covers) (auto split: prod.splits)

subsection \<open>Covers without artwork\<close>

lemma next_cover_filter:
  assumes "skip_missing g"
  shows "next_cover g sz (filter has_artwork covers) =
           (case next_cover g sz covers of (u, c, rest) \<Rightarrow> (u, c, filter has_artwork rest))"
  using assms by (induction covers) (auto simp: has_artwork_def split: option.splits)

lemma place_tiles_filter:
  assumes "skip_missing g"
  shows "place_tiles g sz tiles (filter has_artwork covers) =
           (case place_tiles g sz tiles covers of
              (images, rest) \<Rightarrow> (images, filter has_artwork rest))"
proof (induction tiles arbitrary: covers)
  case Nil
  show ?case by simp
next
  case (Cons bb tiles)
  obtain u c rest where n: "next_cover g sz covers = (u, c, rest)"
    using prod_cases3 by blast
  obtain images rest' where p: "place_tiles g sz tiles rest = (images, rest')"
    by (cases "place_tiles g sz tiles rest") auto
  from n have "next_cover g sz (filter has_artwork covers) = (u, c, filter has_artwork rest)"
    by (simp add: next_cover_filter [OF assms])
  with n p Cons.IH [of rest] show ?case
    by simp
qed

lemma resolve_art_cover:
  "resolve_cover_art (Some 12) (Some ''release-a'') 500 =
     Some ''https://archive.org/download/mbid-release-a/mbid-release-a-12_thumb500.jpg''"
  by (simp add: resolve_cover_art_def format_str_def format_int_def str_int_def digit_char_def)

lemma next_cover_skips:
  assumes "skip_missing g" and "\<forall>p \<in> set pre. caa_id p = None" and "caa_id c = Some i"
  shows "next_cover g sz (pre @ c # rest) =
           (resolve_cover_art (Some i) (caa_release_mbid c) sz, Some c, rest)"
  using assms by (induction pre) simp_all

lemma make_image_cover:
  "make_image (x1, y1, x2, y2) u (Some c) =
     \<lparr> img_x = x1, img_y = y1, img_width = x2 - x1, img_height = y2 - y1, img_url = u,
       img_entity_mbid = entity_mbid c, img_title = title c, img_artist = artist c \<rparr>"
  by (simp add: make_image_def cover_get_def)

text \<open>
  Claim C5. With \<open>skip_missing\<close> set, the covers without artwork are discarded. When the
  covers \<open>pre\<close> at the front of the list have no artwork and the cover \<open>c\<close> after them has,
  the loop for a tile pops them all and takes \<open>c\<close>, leaving \<open>rest\<close>; when no cover follows
  them, it pops them all and the tile gets no cover. So in a call that reaches a tile with
  the list \<open>pre @ c # rest\<close>, that tile gets the image of \<open>c\<close> (or none, when the URL of
  \<open>c\<close> does not resolve), and the tiles after it are served from \<open>rest\<close>. And the call
  returns what it returns on the list without the covers that have no artwork: none of
  them shows in the output.
\<close>

theorem skip_missing_discards_covers_without_artwork:
  assumes "skip_missing g" and "\<forall>p \<in> set pre. caa_id p = None" and "caa_id c = Some i"
  shows "next_cover g sz (pre @ c # rest) =
           (resolve_cover_art (Some i) (caa_release_mbid c) sz, Some c, rest) \<and>
         next_cover g sz pre =
           (if show_caa_image_for_missing_covers g then Some CAA_MISSING_IMAGE else None,
            None, []) \<and>
         (choose_addrs g tile_addrs layout = Inr addrs \<longrightarrow>
          bounding_boxes g addrs = Inr (before @ (x1, y1, x2, y2) # after) \<longrightarrow>
          place_tiles g sz before covers = (placed, pre @ c # rest) \<longrightarrow>
          generate_from_caa_ids g covers tile_addrs layout sz =
            (Inr (placed @
                  (case resolve_cover_art (Some i) (caa_release_mbid c) sz of
                     None \<Rightarrow> []
                   | Some u \<Rightarrow>
                       [\<lparr> img_x = x1, img_y = y1, img_width = x2 - x1, img_height = y2 - y1,
                          img_url = u, img_entity_mbid = entity_mbid c, img_title = title c,
                          img_artist = artist c \<rparr>]) @
                  fst (place_tiles g sz after rest)),
             snd (place_tiles g sz after rest))) \<and>
         generate_from_caa_ids g (filter has_artwork covers) tile_addrs layout sz =
           (case generate_from_caa_ids g covers tile_addrs layout sz of
              (res, left) \<Rightarrow> (res, filter has_artwork left))"
proof -
  have 1: "next_cover g sz (pre @ c # rest) =
             (resolve_cover_art (Some i) (caa_release_mbid c) sz, Some c, rest)"
    by (rule next_cover_skips [OF assms])
  have "runs_out g pre"
    using assms(1,2) by (simp add: runs_out_def list_all_iff)
  then have 2: "next_cover g sz pre =
           (if show_caa_image_for_missing_covers g then Some CAA_MISSING_IMAGE else None,
            None, [])"
    by (rule next_cover_runs_out)
  have 3: "generate_from_caa_ids g covers tile_addrs layout sz =
            (Inr (placed @
                  (case resolve_cover_art (Some i) (caa_release_mbid c) sz of
                     None \<Rightarrow> []
                   | Some u \<Rightarrow>
                       [\<lparr> img_x = x1, img_y = y1, img_width = x2 - x1, img_height = y2 - y1,
                          img_url = u, img_entity_mbid = entity_mbid c, img_title = title c,
                          img_artist = artist c \<rparr>]) @
                  fst (place_tiles g sz after rest)),
             snd (place_tiles g sz after rest))"
    if a: "choose_addrs g tile_addrs layout = Inr addrs"
      and b: "bounding_boxes g addrs = Inr (before @ (x1, y1, x2, y2) # after)"
      and p: "place_tiles g sz before covers = (placed, pre @ c # rest)"
  proof -
    obtain images left where r: "place_tiles g sz after rest = (images, left)"
      by (cases "place_tiles g sz after rest") auto
    have "place_tiles g sz ((x1, y1, x2, y2) # after) (pre @ c # rest) =
            ((case resolve_cover_art (Some i) (caa_release_mbid c) sz of
                None \<Rightarrow> []
              | Some u \<Rightarrow> [make_image (x1, y1, x2, y2) u (Some c)]) @ images, left)"
      using 1 r by simp
    with p r have "place_tiles g sz (before @ (x1, y1, x2, y2) # after) covers =
            (placed @ (case resolve_cover_art (Some i) (caa_release_mbid c) sz of
                None \<Rightarrow> []
              | Some u \<Rightarrow> [make_image (x1, y1, x2, y2) u (Some c)]) @ images, left)"
      by (simp add: place_tiles_append del: place_tiles.simps)
    with a b r show ?thesis
      by (simp add: generate_from_caa_ids_def make_image_cover del: place_tiles.simps
          split: option.splits)
  qed
  have 4: "generate_from_caa_ids g (filter has_artwork covers) tile_addrs layout sz =
           (case generate_from_caa_ids g covers tile_addrs layout sz of
              (res, left) \<Rightarrow> (res, filter has_artwork left))"
    by (simp add: generate_from_caa_ids_def place_tiles_filter [OF assms(1)]
        split: sum.splits prod.splits)
  from 1 2 3 4 show ?thesis
    by blast
qed

text \<open>
  Covers \<open>[no artwork, artwork]\<close> and one tile: the cover with artwork fills the tile.
\<close>

theorem skip_missing_discards_witness:
  "skip_missing grid2 \<and> caa_id bare_cover = None \<and> caa_id art_cover = Some 12 \<and>
   next_cover grid2 500 [bare_cover, art_cover] =
     (Some ''https://archive.org/download/mbid-release-a/mbid-release-a-12_thumb500.jpg'',
      Some art_cover, []) \<and>
   generate_from_caa_ids grid2 [bare_cover, art_cover] (Some [''0'']) None 500 =
     (Inr [art_image], [])"
proof -
  have s: "skip_missing grid2"
    by (simp add: grid2_def)
  have n: "\<forall>p \<in> set [bare_cover]. caa_id p = None"
    by (simp add: bare_cover_def)
  have i: "caa_id art_cover = Some 12"
    by (simp add: art_cover_def)
  have m: "caa_release_mbid art_cover = Some ''release-a''"
    by (simp add: art_cover_def)
  have a: "choose_addrs grid2 (Some [''0'']) None = Inr [''0'']"
    by (simp add: choose_addrs_def)
  have b: "bounding_boxes grid2 [''0''] = Inr ([] @ (0, 0, 250, 250) # [])"
    by (simp add: bb_grid2_0)
  have p: "place_tiles grid2 500 [] [bare_cover, art_cover] =
             ([], [bare_cover] @ art_cover # [])"
    by simp
  note t = skip_missing_discards_covers_without_artwork
      [OF s n i, of 500 "[]" "Some [''0'']" None "[''0'']" "[]" 0 0 250 250 "[]"
        "[bare_cover, art_cover]" "[]"]
  from t have "next_cover grid2 500 [bare_cover, art_cover] =
     (Some ''https://archive.org/download/mbid-release-a/mbid-release-a-12_thumb500.jpg'',
      Some art_cover, [])"
    by (simp add: m resolve_art_cover)
  moreover from t a b p
  have "generate_from_caa_ids grid2 [bare_cover, art_cover] (Some [''0'']) None 500 =
     (Inr [art_image], [])"
    by (simp add: m resolve_art_cover art_image_def art_cover_def)
  ultimately show ?thesis
    using s n i by simp
qed

subsection \<open>Running out of covers\<close>

text \<open>
  Claim C6. When the covers run out at a tile (after the tiles \<open>before\<close> have taken theirs),
  that tile gets, if \<open>show_caa_image_for_missing_covers\<close> is set, exactly one image, with
  the placeholder URL and no entity, title or artist, and otherwise no image at all; so
  does every tile after it.
\<close>

theorem exhausted_covers_placeholder_or_nothing:
  assumes "choose_addrs g tile_addrs layout = Inr addrs"
    and "bounding_boxes g addrs = Inr (before @ (x1, y1, x2, y2) # after)"
    and "place_tiles g sz before covers = (placed, rest)"
    and "runs_out g rest"
  shows "generate_from_caa_ids g covers tile_addrs layout sz =
           (Inr (placed @
                 (if show_caa_image_for_missing_covers g
                  then \<lparr> img_x = x1, img_y = y1, img_width = x2 - x1, img_height = y2 - y1,
                         img_url = CAA_MISSING_IMAGE, img_entity_mbid = None, img_title = None,
                         img_artist = None \<rparr> # map missing_image after
                  else [])),
            [])"
proof -
  have "place_tiles g sz ((x1, y1, x2, y2) # after) rest =
          (if show_caa_image_for_missing_covers g
           then map missing_image ((x1, y1, x2, y2) # after) else [], [])"
    by (rule place_tiles_runs_out [OF assms(4)])
  with assms(3)
  have "place_tiles g sz (before @ (x1, y1, x2, y2) # after) covers =
          (placed @ (if show_caa_image_for_missing_covers g
                     then map missing_image ((x1, y1, x2, y2) # after) else []), [])"
    by (simp add: place_tiles_append del: place_tiles.simps)
  with assms(1,2) show ?thesis
    by (simp add: generate_from_caa_ids_def missing_image_def del: place_tiles.simps)
qed

text \<open>
  No covers, one tile, placeholders shown: one image with the placeholder URL. One cover
  without artwork that is skipped, placeholders not shown: no image.
\<close>

theorem exhausted_covers_witness:
  "generate_from_caa_ids (grid2\<lparr>skip_missing := False\<rparr>) [] (Some [''0'']) None 500 =
     (Inr [\<lparr> img_x = 0, img_y = 0, img_width = 250, img_height = 250,
             img_url = ''https://listenbrainz.org/static/img/cover-art-placeholder.jpg'',
             img_entity_mbid = None, img_title = None, img_artist = None \<rparr>], []) \<and>
   generate_from_caa_ids (grid2\<lparr>show_caa_image_for_missing_covers := False\<rparr>)
       [bare_cover] (Some [''0'']) None 500 = (Inr [], [])"
proof -
  let ?g = "grid2\<lparr>skip_missing := False\<rparr>"
  let ?g' = "grid2\<lparr>show_caa_image_for_missing_covers := False\<rparr>"
  have b: "bounding_boxes ?g [''0''] = Inr ([] @ (0, 0, 250, 250) # [])"
    by (simp add: calculate_bounding_box_def parse_address_def py_int_def strip_def is_space_def
      digits_def digit_val_def get_tile_position_def grid2_def)
  have b': "bounding_boxes ?g' [''0''] = Inr ([] @ (0, 0, 250, 250) # [])"
    by (simp add: calculate_bounding_box_def parse_address_def py_int_def strip_def is_space_def
      digits_def digit_val_def get_tile_position_def grid2_def)
  have c: "choose_addrs ?g (Some [''0'']) None = Inr [''0'']"
    by (simp add: choose_addrs_def)
  have c': "choose_addrs ?g' (Some [''0'']) None = Inr [''0'']"
    by (simp add: choose_addrs_def)
  have p: "place_tiles ?g 500 [] [] = ([], [])"
    by simp
  have p': "place_tiles ?g' 500 [] [bare_cover] = ([], [bare_cover])"
    by simp
  have r: "runs_out ?g []"
    by (simp add: runs_out_def)
  have r': "runs_out ?g' [bare_cover]"
    by (simp add: runs_out_def grid2_def bare_cover_def)
  from exhausted_covers_placeholder_or_nothing [OF c b p r]
    exhausted_covers_placeholder_or_nothing [OF c' b' p' r']
  show ?thesis
    by (simp add: grid2_def CAA_MISSING_IMAGE_def)
qed

subsection \<open>Calling twice\<close>

text \<open>
  On one and the same list object the second call finds the list as the first left it, and
  returns something else.
\<close>

lemma shared_list_other_output:
  "generate_from_caa_ids_at grid2 0 (Some [''0'']) None 500 demo_heap =
     Some (Inr [art_image], demo_heap(0 \<mapsto> [])) \<and>
   generate_from_caa_ids_at grid2 0 (Some [''0'']) None 500 (demo_heap(0 \<mapsto> [])) =
     Some (Inr [missing_image (0, 0, 250, 250)], demo_heap(0 \<mapsto> []))"
proof -
  have a: "generate_from_caa_ids grid2 [bare_cover, art_cover] (Some [''0'']) None 500 =
             (Inr [art_image], [])"
    by (simp add: generate_from_caa_ids_def choose_addrs_def bb_grid2_0 grid2_flags
        bare_cover_def art_cover_def resolve_art_cover make_image_def cover_get_def
        art_image_def)
  have b: "generate_from_caa_ids grid2 [] (Some [''0'']) None 500 =
             (Inr [missing_image (0, 0, 250, 250)], [])"
    by (simp add: generate_from_caa_ids_def choose_addrs_def bb_grid2_0 grid2_flags
        make_image_def cover_get_def missing_image_def)
  show ?thesis
    by (simp add: generate_from_caa_ids_at_def demo_heap_def a b)
qed

text \<open>
  Claim C9. Two calls with the same generator, the same layout and equal lists of covers
  held in two different list objects (the first call pops from its own list only) both
  return, and return the same output.
\<close>

theorem separate_lists_same_output:
  assumes "r1 \<noteq> r2" and "h r1 = Some covers" and "h r2 = Some covers"
  shows "\<exists>out h1 h2.
           generate_from_caa_ids_at g r1 tile_addrs layout sz h = Some (out, h1) \<and>
           generate_from_caa_ids_at g r2 tile_addrs layout sz h1 = Some (out, h2)"
  using assms
  by (cases "generate_from_caa_ids g covers tile_addrs layout sz")
    (simp add: generate_from_caa_ids_at_def)

theorem separate_lists_same_output_witness:
  "(0::nat) \<noteq> 1 \<and> demo_heap 0 = Some [bare_cover, art_cover] \<and>
   demo_heap 1 = Some [bare_cover, art_cover] \<and>
   (\<exists>h1 h2.
      generate_from_caa_ids_at grid2 0 (Some [''0'']) None 500 demo_heap
        = Some (Inr [art_image], h1) \<and>
      generate_from_caa_ids_at grid2 1 (Some [''0'']) None 500 h1
        = Some (Inr [art_image], h2))"
proof -
  have n: "(0::nat) \<noteq> 1"
    by simp
  have a: "demo_heap 0 = Some [bare_cover, art_cover]"
    and b: "demo_heap 1 = Some [bare_cover, art_cover]"
    by (simp_all add: demo_heap_def)
  from separate_lists_same_output [OF n a b, of grid2 "Some [''0'']" None 500]
  obtain out h1 h2 where
    1: "generate_from_caa_ids_at grid2 0 (Some [''0'']) None 500 demo_heap = Some (out, h1)" and
    2: "generate_from_caa_ids_at grid2 1 (Some [''0'']) None 500 h1 = Some (out, h2)"
    by blast
  from 1 have "out = Inr [art_image]"
    by (simp add: shared_list_other_output)
  with 1 2 n a b show ?thesis
    by blast
qed

end
